theory Spec2Isabelle
  imports Main "HOL-Library.Multiset"
begin

section \<open>JavaScript values and built-ins the two scripts rely on\<close>

text \<open>
  A JavaScript string is a sequence of UTF-16 code units; a code unit is kept as a natural
  number. \<open>js\<close> turns an ASCII literal into such a string, so that examples stay readable.
\<close>

type_synonym jsstring = "nat list"

definition js :: "string \<Rightarrow> jsstring" where
  "js s = map of_char s"

text \<open>
  \<open>String.prototype.trim\<close> removes WhiteSpace and LineTerminator code units from both ends:
  TAB, LF, VT, FF, CR, SPACE, NBSP, U+1680, U+2000..U+200A, U+2028, U+2029, U+202F, U+205F,
  U+3000 and U+FEFF.
\<close>

definition isWhiteSpace :: "nat \<Rightarrow> bool" where
  "isWhiteSpace c =
     (c \<in> set [0x9, 0xA, 0xB, 0xC, 0xD, 0x20, 0xA0, 0x1680, 0x2028, 0x2029, 0x202F, 0x205F,
                 0x3000, 0xFEFF]
      \<or> (0x2000 \<le> c \<and> c \<le> 0x200A))"

definition trim :: "jsstring \<Rightarrow> jsstring" where
  "trim s = rev (dropWhile isWhiteSpace (rev (dropWhile isWhiteSpace s)))"

text \<open>
  \<open>String.prototype.toLowerCase\<close> is the platform's: it follows the Unicode case mappings,
  depends on context (the final sigma) and may change the length of a string. It is not
  written out here; the page script's functions take it as their first argument, named
  \<open>toLowerCase\<close>, and what is proved of them holds for every such function.
\<close>

text \<open>\<open>s.includes(q)\<close>: \<open>q\<close> occurs in \<open>s\<close> as a contiguous run of code units.\<close>

fun startsWith :: "jsstring \<Rightarrow> jsstring \<Rightarrow> bool" where
  "startsWith s [] = True"
| "startsWith [] (d # q) = False"
| "startsWith (c # s) (d # q) = (c = d \<and> startsWith s q)"

fun includes_js :: "jsstring \<Rightarrow> jsstring \<Rightarrow> bool" where
  "includes_js [] q = (q = [])"
| "includes_js (c # s) q = (startsWith (c # s) q \<or> includes_js s q)"

text \<open>
  \<open>v || d\<close> and \<open>!v\<close> on a value that is a string or \<open>undefined\<close> (\<open>None\<close>): \<open>undefined\<close> and the
  empty string are falsy.
\<close>

definition falsy :: "jsstring option \<Rightarrow> bool" where
  "falsy v = (case v of None \<Rightarrow> True | Some s \<Rightarrow> s = [])"

definition or_else :: "jsstring option \<Rightarrow> jsstring \<Rightarrow> jsstring" where
  "or_else v d = (case v of None \<Rightarrow> d | Some s \<Rightarrow> if s = [] then d else s)"

text \<open>
  The \<open>Date\<close> object is the platform's. What the scripts use of it is taken as a parameter:
  \<open>parse s\<close> is the time value of \<open>new Date(s)\<close> in milliseconds, \<open>None\<close> for an Invalid Date
  (whose time value is NaN), and the three calendar readers give the local year, the
  zero-based month and the day of the month of a time value.
\<close>

record date_impl =
  parse :: "jsstring \<Rightarrow> int option"
  getFullYear :: "int \<Rightarrow> int"
  getMonth :: "int \<Rightarrow> nat"
  getDate :: "int \<Rightarrow> nat"

text \<open>\<open>new Date(v)\<close> read as a number; \<open>new Date(undefined)\<close> is an Invalid Date.\<close>

definition new_Date :: "date_impl \<Rightarrow> jsstring option \<Rightarrow> int option" where
  "new_Date D v = (case v of None \<Rightarrow> None | Some s \<Rightarrow> parse D s)"

text \<open>Subtraction of two numbers, \<open>None\<close> standing for NaN.\<close>

definition js_minus :: "int option \<Rightarrow> int option \<Rightarrow> int option" where
  "js_minus x y =
     (case x of None \<Rightarrow> None | Some a \<Rightarrow> (case y of None \<Rightarrow> None | Some b \<Rightarrow> Some (a - b)))"

text \<open>\<open>x >= y\<close> on numbers: every comparison with NaN is false.\<close>

definition js_ge :: "int option \<Rightarrow> int option \<Rightarrow> bool" where
  "js_ge x y =
     (case x of None \<Rightarrow> False | Some a \<Rightarrow> (case y of None \<Rightarrow> False | Some b \<Rightarrow> b \<le> a))"

text \<open>
  \<open>Array.prototype.sort(comparefn)\<close>. The language fixes that a comparator result of NaN
  counts as \<open>+0\<close> and that the sort is stable; for a consistent comparator that determines
  the result. It is embedded as a stable insertion sort: an element goes in front of the
  first element of the sorted rest that it does not compare greater than.
\<close>

definition SortCompare :: "('a \<Rightarrow> 'a \<Rightarrow> int option) \<Rightarrow> 'a \<Rightarrow> 'a \<Rightarrow> int" where
  "SortCompare comparefn x y = (case comparefn x y of None \<Rightarrow> 0 | Some v \<Rightarrow> v)"

fun place :: "('a \<Rightarrow> 'a \<Rightarrow> int option) \<Rightarrow> 'a \<Rightarrow> 'a list \<Rightarrow> 'a list" where
  "place comparefn x [] = [x]"
| "place comparefn x (y # ys) =
     (if SortCompare comparefn x y \<le> 0 then x # y # ys else y # place comparefn x ys)"

definition array_sort :: "('a \<Rightarrow> 'a \<Rightarrow> int option) \<Rightarrow> 'a list \<Rightarrow> 'a list" where
  "array_sort comparefn xs = foldr (place comparefn) xs []"

text \<open>\<open>String(n)\<close> for an integer and \<open>padStart(2, '0')\<close>.\<close>

fun digits :: "nat \<Rightarrow> jsstring" where
  "digits n = (if n < 10 then [0x30 + n] else digits (n div 10) @ [0x30 + n mod 10])"

definition String_of :: "int \<Rightarrow> jsstring" where
  "String_of i = (if i < 0 then 0x2D # digits (nat (- i)) else digits (nat i))"

definition padStart2 :: "jsstring \<Rightarrow> jsstring" where
  "padStart2 s = replicate (2 - length s) 0x30 @ s"

section \<open>The project record of the manifest\<close>

text \<open>
  One entry of \<open>projects.json\<close>. The generator writes every field; the page script reads the
  file back and guards each field it touches, so a field may be missing (\<open>None\<close>) there.
\<close>

record project =
  name :: "jsstring option"
  repo :: "jsstring option"
  url :: "jsstring option"
  description :: "jsstring option"
  topics :: "jsstring list option"
  date :: "jsstring option"
  screenshot :: "jsstring option"

section \<open>The generator: \<open>main\<close>\<close>

text \<open>
  A repository as the listing call returns it (the fields \<open>main\<close> reads: \<open>name\<close>, \<open>fork\<close>,
  \<open>archived\<close>, \<open>description\<close>, which may be \<open>null\<close>, and \<open>updated_at\<close>). The selectors carry the
  prefix \<open>repo_\<close> to keep them apart from the project record's.
\<close>

record repository =
  repo_name :: jsstring
  repo_fork :: bool
  repo_archived :: bool
  repo_description :: "jsstring option"
  repo_updated_at :: jsstring

record js_error =
  status :: "nat option"
  message :: jsstring

record pages_config =
  html_url :: jsstring

text \<open>
  The services \<open>main\<close> awaits: the three API requests (owner first, then the repository name)
  and the file write. A rejected promise is \<open>Inl\<close> of the error.
\<close>

record services =
  listForUser :: "jsstring \<Rightarrow> js_error + repository list"
  getPages :: "jsstring \<Rightarrow> jsstring \<Rightarrow> js_error + pages_config"
  getAllTopics :: "jsstring \<Rightarrow> jsstring \<Rightarrow> js_error + jsstring list"
  writeFile :: "project list \<Rightarrow> js_error option"

record environment =
  GITHUB_USER :: "jsstring option"
  GITHUB_TOKEN :: "jsstring option"

datatype api_call =
  ListForUser jsstring
| GetPages jsstring jsstring
| GetAllTopics jsstring jsstring

text \<open>
  The console lines of \<open>main\<close>, one constructor per message of the source, with the values its
  template interpolates.
\<close>

datatype console_line =
  Error_user_unset
| Error_token_unset
| Warn_pages_failed jsstring jsstring
| Warn_topics_failed jsstring jsstring
| Log_generated nat
| Error_uncaught js_error

record gen_state =
  projects :: "project list"
  console :: "console_line list"
  calls :: "api_call list"

record outcome =
  exit_code :: nat
  printed :: "console_line list"
  requested :: "api_call list"
  written :: "project list option"

text \<open>The body of the \<open>for (const repo of repos)\<close> loop.\<close>

definition process_repo :: "services \<Rightarrow> jsstring \<Rightarrow> gen_state \<Rightarrow> repository \<Rightarrow> gen_state" where
  "process_repo api owner st r =
     (if repo_fork r \<or> repo_archived r then st
      else
        (case getPages api owner (repo_name r) of
           Inl err \<Rightarrow>
             if status err = Some 404
             then st\<lparr>calls := calls st @ [GetPages owner (repo_name r)]\<rparr>
             else st\<lparr>console := console st @ [Warn_pages_failed (repo_name r) (message err)],
                     calls := calls st @ [GetPages owner (repo_name r)]\<rparr>
         | Inr pagesConfig \<Rightarrow>
             (case getAllTopics api owner (repo_name r) of
                Inl err \<Rightarrow>
                  st\<lparr>projects := projects st @
                       [\<lparr>name = Some (repo_name r), repo = Some (repo_name r),
                         url = Some (html_url pagesConfig),
                         description = Some (or_else (repo_description r) []),
                         topics = Some [], date = Some (repo_updated_at r),
                         screenshot = Some []\<rparr>],
                     console := console st @ [Warn_topics_failed (repo_name r) (message err)],
                     calls := calls st @
                       [GetPages owner (repo_name r), GetAllTopics owner (repo_name r)]\<rparr>
              | Inr names \<Rightarrow>
                  st\<lparr>projects := projects st @
                       [\<lparr>name = Some (repo_name r), repo = Some (repo_name r),
                         url = Some (html_url pagesConfig),
                         description = Some (or_else (repo_description r) []),
                         topics = Some names, date = Some (repo_updated_at r),
                         screenshot = Some []\<rparr>],
                     calls := calls st @
                       [GetPages owner (repo_name r), GetAllTopics owner (repo_name r)]\<rparr>)))"

text \<open>The comparator of the generator's sort: \<open>new Date(b.date) - new Date(a.date)\<close>.\<close>

definition newest_first :: "date_impl \<Rightarrow> project \<Rightarrow> project \<Rightarrow> int option" where
  "newest_first D a b = js_minus (new_Date D (date b)) (new_Date D (date a))"

text \<open>The loop over the listed repositories followed by the sort: the array that is serialised.\<close>

definition collect :: "services \<Rightarrow> jsstring \<Rightarrow> repository list \<Rightarrow> gen_state" where
  "collect api owner repos =
     foldl (process_repo api owner) \<lparr>projects = [], console = [], calls = [ListForUser owner]\<rparr> repos"

definition manifest :: "date_impl \<Rightarrow> services \<Rightarrow> jsstring \<Rightarrow> repository list \<Rightarrow> project list" where
  "manifest D api owner repos = array_sort (newest_first D) (projects (collect api owner repos))"

text \<open>
  \<open>main\<close> together with the \<open>main().catch\<close> handler: \<open>process.exit(1)\<close> ends the run at once, a
  rejected listing or write is caught, printed and ends it with status 1, and a run that
  reaches the end of \<open>main\<close> exits with status 0.
\<close>

definition main :: "date_impl \<Rightarrow> environment \<Rightarrow> services \<Rightarrow> outcome" where
  "main D env api =
     (if falsy (GITHUB_USER env)
      then \<lparr>exit_code = 1, printed = [Error_user_unset], requested = [], written = None\<rparr>
      else if falsy (GITHUB_TOKEN env)
      then \<lparr>exit_code = 1, printed = [Error_token_unset], requested = [], written = None\<rparr>
      else
        (let owner = or_else (GITHUB_USER env) [] in
         case listForUser api owner of
           Inl err \<Rightarrow>
             \<lparr>exit_code = 1, printed = [Error_uncaught err], requested = [ListForUser owner],
              written = None\<rparr>
         | Inr repos \<Rightarrow>
             (let st = collect api owner repos;
                  sorted_projects = manifest D api owner repos
              in case writeFile api sorted_projects of
                   Some err \<Rightarrow>
                     \<lparr>exit_code = 1, printed = console st @ [Error_uncaught err],
                      requested = calls st, written = None\<rparr>
                 | None \<Rightarrow>
                     \<lparr>exit_code = 0,
                      printed = console st @ [Log_generated (length sorted_projects)],
                      requested = calls st, written = Some sorted_projects\<rparr>)))"

text \<open>
  What one pass of the loop body appends to \<open>projects\<close>: the pass run on an empty state. It is
  used to reason about the loop, one repository at a time.
\<close>

definition emitted :: "services \<Rightarrow> jsstring \<Rightarrow> repository \<Rightarrow> project list" where
  "emitted api owner r =
     projects (process_repo api owner \<lparr>projects = [], console = [], calls = []\<rparr> r)"

text \<open>Likewise, the lines one pass of the loop body prints.\<close>

definition logged :: "services \<Rightarrow> jsstring \<Rightarrow> repository \<Rightarrow> console_line list" where
  "logged api owner r =
     console (process_repo api owner \<lparr>projects = [], console = [], calls = []\<rparr> r)"

section \<open>The page script: \<open>formatDate\<close> and \<open>render\<close>\<close>

definition formatDate :: "date_impl \<Rightarrow> jsstring \<Rightarrow> jsstring" where
  "formatDate D isoString =
     (case parse D isoString of
        None \<Rightarrow> []
      | Some t \<Rightarrow>
          (let y = getFullYear D t;
               m = padStart2 (String_of (int (getMonth D t + 1)));
               d = padStart2 (String_of (int (getDate D t)))
           in String_of y @ js ''-'' @ m @ js ''-'' @ d))"

text \<open>
  The values of the three controls when \<open>render\<close> runs: the search box, the tag selector and
  the sort selector. The tag selector's "all" entry is the one whose value is the empty
  string: \<open>render\<close> tests \<open>!selectedTag\<close>, and every other entry carries its topic as value.
\<close>

record controls =
  searchInput :: jsstring
  tagFilter :: jsstring
  sortOrder :: jsstring

text \<open>The callback of \<open>projects.filter\<close>.\<close>

definition keep :: "(jsstring \<Rightarrow> jsstring) \<Rightarrow> controls \<Rightarrow> project \<Rightarrow> bool" where
  "keep toLowerCase c p =
     (let query = toLowerCase (trim (searchInput c));
          selectedTag = tagFilter c;
          inName = (case name p of None \<Rightarrow> False
                    | Some n \<Rightarrow> n \<noteq> [] \<and> includes_js (toLowerCase n) query);
          inDesc = (case description p of None \<Rightarrow> False
                    | Some d \<Rightarrow> d \<noteq> [] \<and> includes_js (toLowerCase d) query);
          matchesSearch = (query = [] \<or> inName \<or> inDesc);
          matchesTag = (selectedTag = [] \<or>
                        (case topics p of None \<Rightarrow> False | Some ts \<Rightarrow> selectedTag \<in> set ts))
      in matchesSearch \<and> matchesTag)"

text \<open>The comparator of \<open>filtered.sort\<close>.\<close>

definition by_date :: "date_impl \<Rightarrow> jsstring \<Rightarrow> project \<Rightarrow> project \<Rightarrow> int option" where
  "by_date D sortVal a b =
     (let aDate = new_Date D (date a);
          bDate = new_Date D (date b)
      in if sortVal = js ''asc'' then js_minus aDate bDate else js_minus bDate aDate)"

definition filtered ::
  "(jsstring \<Rightarrow> jsstring) \<Rightarrow> date_impl \<Rightarrow> controls \<Rightarrow> project list \<Rightarrow> project list" where
  "filtered toLowerCase D c ps =
     array_sort (by_date D (sortOrder c)) (filter (keep toLowerCase c) ps)"

text \<open>
  One card of the grid, with what \<open>render\<close> writes into the template: the link target, the
  image source, the title, the description, the tag badges and the date label.
\<close>

record card =
  href :: jsstring
  src :: jsstring
  card_title :: jsstring
  card_desc :: jsstring
  tags :: "jsstring list"
  update_date :: jsstring

text \<open>The two non-ASCII literals of \<open>render\<close>, as code units: the title used for a project
  without a name, and the prefix of the date label (three CJK characters and a space).\<close>

definition unnamed_title :: jsstring where
  "unnamed_title = [0x672A, 0x547D, 0x540D, 0x9879, 0x76EE]"

definition updated_prefix :: jsstring where
  "updated_prefix = [0x66F4, 0x65B0, 0x4E8E, 0x20]"

definition card_of :: "date_impl \<Rightarrow> project \<Rightarrow> card" where
  "card_of D p =
     \<lparr>href = or_else (url p) (js ''#''),
      src = or_else (screenshot p) (js ''placeholder_light_gray_block.png''),
      card_title = or_else (name p) unnamed_title,
      card_desc = or_else (description p) [],
      tags = (case topics p of None \<Rightarrow> [] | Some ts \<Rightarrow> ts),
      update_date =
        (case date p of
           None \<Rightarrow> []
         | Some s \<Rightarrow> if s = [] then [] else updated_prefix @ formatDate D s)\<rparr>"

definition render ::
  "(jsstring \<Rightarrow> jsstring) \<Rightarrow> date_impl \<Rightarrow> controls \<Rightarrow> project list \<Rightarrow> card list" where
  "render toLowerCase D c ps = map (card_of D) (filtered toLowerCase D c ps)"

section \<open>Sample data\<close>

text \<open>
  A \<open>toLowerCase\<close> for the examples. It lowers \<open>A\<close>..\<open>Z\<close> and U+00C0..U+00DE (without the
  multiplication sign) and leaves every other code unit as it is, which is what
  \<open>String.prototype.toLowerCase\<close> does on strings of Basic Latin and Latin-1 code units, the
  only ones the examples use.
\<close>

definition sample_lower_unit :: "nat \<Rightarrow> nat" where
  "sample_lower_unit c =
     (if (0x41 \<le> c \<and> c \<le> 0x5A) \<or> (0xC0 \<le> c \<and> c \<le> 0xDE \<and> c \<noteq> 0xD7) then c + 0x20 else c)"

definition sample_toLowerCase :: "jsstring \<Rightarrow> jsstring" where
  "sample_toLowerCase s = map sample_lower_unit s"

text \<open>
  A \<open>Date\<close> for the examples: it reads three date strings (their time values are the UTC
  midnights in milliseconds) and no other, and its calendar is the proleptic Gregorian one
  in UTC.
\<close>

definition civil :: "int \<Rightarrow> int \<times> nat \<times> nat" where
  "civil t =
     (let z = t div 86400000 + 719468;
          era = z div 146097;
          doe = z - era * 146097;
          yoe = (doe - doe div 1460 + doe div 36524 - doe div 146096) div 365;
          doy = doe - (365 * yoe + yoe div 4 - yoe div 100);
          mp = (5 * doy + 2) div 153;
          d = doy - (153 * mp + 2) div 5 + 1;
          m = (if mp < 10 then mp + 3 else mp - 9);
          y = yoe + era * 400 + (if m \<le> 2 then 1 else 0)
      in (y, nat (m - 1), nat d))"

definition sample_parse :: "jsstring \<Rightarrow> int option" where
  "sample_parse s =
     (if s = js ''2023-01-01'' then Some 1672531200000
      else if s = js ''2023-06-01'' then Some 1685577600000
      else if s = js ''2024-02-29'' then Some 1709164800000
      else None)"

definition sample_Date :: date_impl where
  "sample_Date =
     \<lparr>parse = sample_parse,
      getFullYear = (\<lambda>t. fst (civil t)),
      getMonth = (\<lambda>t. fst (snd (civil t))),
      getDate = (\<lambda>t. snd (snd (civil t)))\<rparr>"

text \<open>The two records of the specification's example manifest, and one with a date that does
  not parse.\<close>

definition project_A :: project where
  "project_A =
     \<lparr>name = Some (js ''A''), repo = Some (js ''A''), url = Some (js ''https://example.org/A/''),
      description = Some [], topics = Some [js ''x''], date = Some (js ''2023-01-01''),
      screenshot = Some []\<rparr>"

definition project_B :: project where
  "project_B =
     \<lparr>name = Some (js ''B''), repo = Some (js ''B''), url = Some (js ''https://example.org/B/''),
      description = Some [], topics = Some [js ''y''], date = Some (js ''2023-06-01''),
      screenshot = Some []\<rparr>"

definition project_undated :: project where
  "project_undated =
     \<lparr>name = Some (js ''ab''), repo = Some (js ''ab''), url = Some (js ''https://example.org/ab/''),
      description = Some [], topics = Some [], date = Some (js ''not-a-date''),
      screenshot = Some []\<rparr>"

text \<open>
  An account for the examples. \<open>octocat\<close> lists six repositories: \<open>site\<close> has a page and
  topics, the topics request of \<open>blog\<close> fails, \<open>forked\<close> is a fork and \<open>old\<close> is archived (both
  with a page), \<open>plain\<close> has no page (404) and the page request of \<open>flaky\<close> fails with 500.
  \<open>hubot\<close> lists two repositories with a page, the first with a time stamp that does not parse.
\<close>

definition repo_site :: repository where
  "repo_site = \<lparr>repo_name = js ''site'', repo_fork = False, repo_archived = False,
                 repo_description = Some (js ''Home page''), repo_updated_at = js ''2023-01-01''\<rparr>"

definition repo_blog :: repository where
  "repo_blog = \<lparr>repo_name = js ''blog'', repo_fork = False, repo_archived = False,
                 repo_description = None, repo_updated_at = js ''2023-06-01''\<rparr>"

definition repo_forked :: repository where
  "repo_forked = \<lparr>repo_name = js ''forked'', repo_fork = True, repo_archived = False,
                   repo_description = None, repo_updated_at = js ''2024-02-29''\<rparr>"

definition repo_old :: repository where
  "repo_old = \<lparr>repo_name = js ''old'', repo_fork = False, repo_archived = True,
                repo_description = None, repo_updated_at = js ''2024-02-29''\<rparr>"

definition repo_plain :: repository where
  "repo_plain = \<lparr>repo_name = js ''plain'', repo_fork = False, repo_archived = False,
                  repo_description = None, repo_updated_at = js ''2024-02-29''\<rparr>"

definition repo_flaky :: repository where
  "repo_flaky = \<lparr>repo_name = js ''flaky'', repo_fork = False, repo_archived = False,
                  repo_description = None, repo_updated_at = js ''2024-02-29''\<rparr>"

definition repo_undated :: repository where
  "repo_undated = \<lparr>repo_name = js ''undated'', repo_fork = False, repo_archived = False,
                    repo_description = None, repo_updated_at = js ''not-a-date''\<rparr>"

definition sample_api :: services where
  "sample_api =
     \<lparr>listForUser = (\<lambda>owner.
        if owner = js ''octocat''
        then Inr [repo_site, repo_forked, repo_plain, repo_blog, repo_flaky, repo_old]
        else if owner = js ''hubot'' then Inr [repo_undated, repo_site]
        else Inl \<lparr>status = Some 404, message = js ''Not Found''\<rparr>),
      getPages = (\<lambda>owner r.
        if r = js ''plain'' then Inl \<lparr>status = Some 404, message = js ''Not Found''\<rparr>
        else if r = js ''flaky'' then Inl \<lparr>status = Some 500, message = js ''Server Error''\<rparr>
        else Inr \<lparr>html_url = js ''https://example.org/'' @ r @ js ''/''\<rparr>),
      getAllTopics = (\<lambda>owner r.
        if r = js ''blog'' then Inl \<lparr>status = Some 500, message = js ''Server Error''\<rparr>
        else Inr [js ''x'']),
      writeFile = (\<lambda>ps. None)\<rparr>"

definition sample_env :: "jsstring \<Rightarrow> environment" where
  "sample_env owner = \<lparr>GITHUB_USER = Some owner, GITHUB_TOKEN = Some (js ''token'')\<rparr>"

text \<open>The records \<open>main\<close> builds for \<open>blog\<close>, \<open>site\<close> and \<open>undated\<close> with these services.\<close>

definition record_blog :: project where
  "record_blog =
     \<lparr>name = Some (js ''blog''), repo = Some (js ''blog''),
      url = Some (js ''https://example.org/blog/''), description = Some [], topics = Some [],
      date = Some (js ''2023-06-01''), screenshot = Some []\<rparr>"

definition record_site :: project where
  "record_site =
     \<lparr>name = Some (js ''site''), repo = Some (js ''site''),
      url = Some (js ''https://example.org/site/''), description = Some (js ''Home page''),
      topics = Some [js ''x''], date = Some (js ''2023-01-01''), screenshot = Some []\<rparr>"

definition record_undated :: project where
  "record_undated =
     \<lparr>name = Some (js ''undated''), repo = Some (js ''undated''),
      url = Some (js ''https://example.org/undated/''), description = Some [],
      topics = Some [js ''x''], date = Some (js ''not-a-date''), screenshot = Some []\<rparr>"

section \<open>The render predicate in the specification's words\<close>

text \<open>
  \<open>ci_substring toLowerCase q field\<close>: the text \<open>q\<close> is a case-insensitive substring of a field
  of the record, case being set aside by lower-casing both with \<open>toLowerCase\<close> (a missing
  field has no substring). \<open>shown_for toLowerCase text tag p\<close> is the predicate of the
  specification for a search text and a selected tag, the empty tag being the "all" choice:
  the text is empty or a case-insensitive substring of the name or of the description, and
  the tag is "all" or an element of the topics.
\<close>

definition ci_substring :: "(jsstring \<Rightarrow> jsstring) \<Rightarrow> jsstring \<Rightarrow> jsstring option \<Rightarrow> bool" where
  "ci_substring toLowerCase q field =
     (case field of
        None \<Rightarrow> False
      | Some s \<Rightarrow> (\<exists>pre suf. toLowerCase s = pre @ toLowerCase q @ suf))"

definition shown_for ::
  "(jsstring \<Rightarrow> jsstring) \<Rightarrow> jsstring \<Rightarrow> jsstring \<Rightarrow> project \<Rightarrow> bool" where
  "shown_for toLowerCase text tag p =
     ((text = [] \<or> ci_substring toLowerCase text (name p)
       \<or> ci_substring toLowerCase text (description p))
      \<and> (tag = [] \<or> (case topics p of None \<Rightarrow> False | Some ts \<Rightarrow> tag \<in> set ts)))"

section \<open>Facts about the built-ins\<close>

lemma startsWith_iff: "startsWith s q \<longleftrightarrow> (\<exists>suf. s = q @ suf)"
  by (induction s q rule: startsWith.induct) auto

text \<open>\<open>includes_js\<close> is the substring test.\<close>

lemma includes_js_iff: "includes_js s q \<longleftrightarrow> (\<exists>pre suf. s = pre @ q @ suf)"
proof (induction s)
  case Nil
  then show ?case by auto
next
  case (Cons c s)
  show ?case
  proof
    assume "includes_js (c # s) q"
    then consider "startsWith (c # s) q" | "includes_js s q" by auto
    then show "\<exists>pre suf. c # s = pre @ q @ suf"
    proof cases
      case 1
      then obtain suf where "c # s = q @ suf" by (auto simp: startsWith_iff)
      then have "c # s = [] @ q @ suf" by simp
      then show ?thesis by blast
    next
      case 2
      then obtain pre suf where "s = pre @ q @ suf" using Cons.IH by blast
      then have "c # s = (c # pre) @ q @ suf" by simp
      then show ?thesis by blast
    qed
  next
    assume "\<exists>pre suf. c # s = pre @ q @ suf"
    then obtain pre suf where eq: "c # s = pre @ q @ suf" by blast
    show "includes_js (c # s) q"
    proof (cases pre)
      case Nil
      with eq have "startsWith (c # s) q" by (auto simp: startsWith_iff)
      then show ?thesis by simp
    next
      case (Cons d pre')
      with eq have "s = pre' @ q @ suf" by simp
      then have "includes_js s q" using Cons.IH by blast
      then show ?thesis by simp
    qed
  qed
qed

lemma mset_place: "mset (place f x ys) = add_mset x (mset ys)"
  by (induction ys) auto

lemma mset_array_sort: "mset (array_sort f xs) = mset xs"
  by (induction xs) (auto simp: array_sort_def mset_place)

lemma set_array_sort: "set (array_sort f xs) = set xs"
  by (metis mset_array_sort set_mset_mset)

lemma length_array_sort: "length (array_sort f xs) = length xs"
  by (metis mset_array_sort size_mset)

text \<open>Where every pair of elements ties, the sort returns its input.\<close>

lemma place_front:
  "(\<And>y. y \<in> set ys \<Longrightarrow> SortCompare f x y \<le> 0) \<Longrightarrow> place f x ys = x # ys"
  by (cases ys) auto

lemma array_sort_ties:
  "(\<And>x y. x \<in> set xs \<Longrightarrow> y \<in> set xs \<Longrightarrow> SortCompare f x y \<le> 0) \<Longrightarrow> array_sort f xs = xs"
proof (induction xs)
  case Nil
  then show ?case by (simp add: array_sort_def)
next
  case (Cons x xs)
  have "array_sort f xs = xs" using Cons by auto
  moreover have "place f x xs = x # xs" using Cons.prems by (intro place_front) auto
  ultimately show ?case by (simp add: array_sort_def)
qed

text \<open>Where the comparator is total and transitive on the elements, the result is ordered.\<close>

lemma sorted_wrt_place:
  assumes "\<And>y. y \<in> set ys \<Longrightarrow> SortCompare f x y \<le> 0 \<or> SortCompare f y x \<le> 0"
    and "\<And>y z. y \<in> set ys \<Longrightarrow> z \<in> set ys \<Longrightarrow>
           SortCompare f x y \<le> 0 \<Longrightarrow> SortCompare f y z \<le> 0 \<Longrightarrow> SortCompare f x z \<le> 0"
    and "sorted_wrt (\<lambda>a b. SortCompare f a b \<le> 0) ys"
  shows "sorted_wrt (\<lambda>a b. SortCompare f a b \<le> 0) (place f x ys)"
  using assms
proof (induction ys)
  case Nil
  then show ?case by simp
next
  case (Cons y ys)
  show ?case
  proof (cases "SortCompare f x y \<le> 0")
    case True
    then show ?thesis using Cons.prems by auto
  next
    case False
    then have yx: "SortCompare f y x \<le> 0" using Cons.prems(1)[of y] by auto
    have "sorted_wrt (\<lambda>a b. SortCompare f a b \<le> 0) (place f x ys)"
      using Cons.prems by (intro Cons.IH) auto
    moreover have "\<forall>z\<in>set (place f x ys). SortCompare f y z \<le> 0"
      using Cons.prems(3) yx by (auto simp flip: set_mset_mset simp: mset_place)
    ultimately show ?thesis using False by simp
  qed
qed

lemma sorted_wrt_array_sort:
  "(\<forall>x\<in>set xs. \<forall>y\<in>set xs. SortCompare f x y \<le> 0 \<or> SortCompare f y x \<le> 0) \<Longrightarrow>
   (\<forall>x\<in>set xs. \<forall>y\<in>set xs. \<forall>z\<in>set xs.
           SortCompare f x y \<le> 0 \<longrightarrow> SortCompare f y z \<le> 0 \<longrightarrow> SortCompare f x z \<le> 0) \<Longrightarrow>
   sorted_wrt (\<lambda>a b. SortCompare f a b \<le> 0) (array_sort f xs)"
proof (induction xs)
  case Nil
  show ?case by (simp add: array_sort_def)
next
  case (Cons x xs)
  have tot: "SortCompare f a b \<le> 0 \<or> SortCompare f b a \<le> 0"
    if "a \<in> set (x # xs)" "b \<in> set (x # xs)" for a b
    using Cons.prems(1) that by blast
  have tr: "SortCompare f a c \<le> 0"
    if "a \<in> set (x # xs)" "b \<in> set (x # xs)" "c \<in> set (x # xs)"
       "SortCompare f a b \<le> 0" "SortCompare f b c \<le> 0" for a b c
    using Cons.prems(2) that by blast
  have IH: "sorted_wrt (\<lambda>a b. SortCompare f a b \<le> 0) (array_sort f xs)"
  proof (rule Cons.IH)
    show "\<forall>a\<in>set xs. \<forall>b\<in>set xs. SortCompare f a b \<le> 0 \<or> SortCompare f b a \<le> 0"
      using tot by simp
    show "\<forall>a\<in>set xs. \<forall>b\<in>set xs. \<forall>c\<in>set xs.
           SortCompare f a b \<le> 0 \<longrightarrow> SortCompare f b c \<le> 0 \<longrightarrow> SortCompare f a c \<le> 0"
      using tr by (meson list.set_intros(2))
  qed
  have "sorted_wrt (\<lambda>a b. SortCompare f a b \<le> 0) (place f x (array_sort f xs))"
  proof (rule sorted_wrt_place)
    fix y assume "y \<in> set (array_sort f xs)"
    then have "y \<in> set (x # xs)" by (simp add: set_array_sort)
    then show "SortCompare f x y \<le> 0 \<or> SortCompare f y x \<le> 0"
      using tot[of x y] by simp
  next
    fix y z assume "y \<in> set (array_sort f xs)" "z \<in> set (array_sort f xs)"
      and le: "SortCompare f x y \<le> 0" "SortCompare f y z \<le> 0"
    then have "y \<in> set (x # xs)" "z \<in> set (x # xs)" by (simp_all add: set_array_sort)
    then show "SortCompare f x z \<le> 0"
      using tr[of x y z] le by simp
  next
    show "sorted_wrt (\<lambda>a b. SortCompare f a b \<le> 0) (array_sort f xs)" by (rule IH)
  qed
  then show ?case by (simp add: array_sort_def)
qed

lemma includes_js_Nil [simp]: "includes_js s []"
  by (induction s) auto

text \<open>\<open>trim\<close> drops blank code units at both ends and nothing else.\<close>

lemma trim_blank:
  assumes "\<forall>u\<in>set w. isWhiteSpace u"
  shows "trim w = []"
  using assms by (auto simp: trim_def dest: set_dropWhileD)

lemma dropWhile_blank_append:
  assumes "\<forall>u\<in>set w. isWhiteSpace u"
  shows "dropWhile isWhiteSpace (w @ s) = dropWhile isWhiteSpace s"
  using assms by (induction w) auto

lemma trim_pad:
  assumes w1: "\<forall>u\<in>set w1. isWhiteSpace u" and w2: "\<forall>u\<in>set w2. isWhiteSpace u"
  shows "trim (w1 @ q @ w2) = trim q"
proof -
  have l: "dropWhile isWhiteSpace (w1 @ q @ w2) = dropWhile isWhiteSpace (q @ w2)"
    using w1 by (rule dropWhile_blank_append)
  have r2: "\<forall>u\<in>set (rev w2). isWhiteSpace u" using w2 by simp
  show ?thesis
  proof (cases "\<forall>u\<in>set q. isWhiteSpace u")
    case True
    then have "\<forall>u\<in>set (q @ w2). isWhiteSpace u" using w2 by auto
    then have "trim (q @ w2) = []" by (rule trim_blank)
    moreover have "trim q = []" using True by (rule trim_blank)
    moreover have "trim (w1 @ q @ w2) = trim (q @ w2)" by (simp add: trim_def l)
    ultimately show ?thesis by simp
  next
    case False
    then have "dropWhile isWhiteSpace (q @ w2) = dropWhile isWhiteSpace q @ w2"
      by (auto simp: dropWhile_append1)
    then have "rev (dropWhile isWhiteSpace (q @ w2)) = rev w2 @ rev (dropWhile isWhiteSpace q)"
      by simp
    then have "dropWhile isWhiteSpace (rev (dropWhile isWhiteSpace (q @ w2))) =
               dropWhile isWhiteSpace (rev (dropWhile isWhiteSpace q))"
      using dropWhile_blank_append[OF r2] by simp
    then show ?thesis by (simp add: trim_def l)
  qed
qed

section \<open>Facts about the generator's loop\<close>

lemma projects_process_repo:
  "projects (process_repo api owner st r) = projects st @ emitted api owner r"
  by (simp add: process_repo_def emitted_def split: sum.splits)

lemma projects_foldl_process_repo:
  "projects (foldl (process_repo api owner) st rs) =
     projects st @ concat (map (emitted api owner) rs)"
  by (induction rs arbitrary: st) (simp_all add: projects_process_repo)

lemma projects_collect:
  "projects (collect api owner rs) = concat (map (emitted api owner) rs)"
  by (simp add: collect_def projects_foldl_process_repo)

text \<open>The loop body never looks at the listing request.\<close>

lemma process_repo_other_listing:
  "process_repo (api\<lparr>listForUser := f\<rparr>) owner = process_repo api owner"
  by (intro ext) (simp add: process_repo_def cong: sum.case_cong)

lemma collect_other_listing:
  "collect (api\<lparr>listForUser := f\<rparr>) owner rs = collect api owner rs"
  by (simp add: collect_def process_repo_other_listing)

lemma manifest_other_listing:
  "manifest D (api\<lparr>listForUser := f\<rparr>) owner rs = manifest D api owner rs"
  by (simp add: manifest_def collect_other_listing)

lemma emitted_skipped:
  "repo_fork r \<or> repo_archived r \<Longrightarrow> emitted api owner r = []"
  by (simp add: emitted_def process_repo_def)

lemma emitted_no_page:
  "getPages api owner (repo_name r) = Inl err \<Longrightarrow> emitted api owner r = []"
  by (simp add: emitted_def process_repo_def)

lemma manifest_drop:
  "emitted api owner r = [] \<Longrightarrow>
   manifest D api owner (rs1 @ r # rs2) = manifest D api owner (rs1 @ rs2)"
  by (simp add: manifest_def projects_collect)

text \<open>What \<open>main\<close> does once the credentials are there and the listing has answered.\<close>

lemma main_listed:
  assumes "GITHUB_USER env = Some owner" "owner \<noteq> []" "\<not> falsy (GITHUB_TOKEN env)"
    and "listForUser api owner = Inr repos"
  shows "main D env api =
     (case writeFile api (manifest D api owner repos) of
        Some err \<Rightarrow>
          \<lparr>exit_code = 1, printed = console (collect api owner repos) @ [Error_uncaught err],
           requested = calls (collect api owner repos), written = None\<rparr>
      | None \<Rightarrow>
          \<lparr>exit_code = 0,
           printed = console (collect api owner repos) @
             [Log_generated (length (manifest D api owner repos))],
           requested = calls (collect api owner repos),
           written = Some (manifest D api owner repos)\<rparr>)"
  using assms by (simp add: main_def falsy_def or_else_def Let_def)

text \<open>A file is written only by a run that had its credentials and its listing.\<close>

lemma main_written:
  assumes "written (main D env api) = Some m"
  shows "\<exists>owner repos. GITHUB_USER env = Some owner \<and> owner \<noteq> [] \<and> \<not> falsy (GITHUB_TOKEN env)
           \<and> listForUser api owner = Inr repos \<and> m = manifest D api owner repos
           \<and> exit_code (main D env api) = 0"
  using assms
  by (auto simp: main_def falsy_def or_else_def Let_def split: if_splits option.splits sum.splits)

text \<open>A repository that contributes no record can be left out of the listing.\<close>

lemma main_drop:
  assumes "GITHUB_USER env = Some owner" "owner \<noteq> []" "\<not> falsy (GITHUB_TOKEN env)"
    and "listForUser api owner = Inr (rs1 @ r # rs2)"
    and "emitted api owner r = []"
  shows "written (main D env api) = written (main D env (api\<lparr>listForUser := \<lambda>u. Inr (rs1 @ rs2)\<rparr>))
       \<and> exit_code (main D env api) = exit_code (main D env (api\<lparr>listForUser := \<lambda>u. Inr (rs1 @ rs2)\<rparr>))"
proof -
  let ?api = "api\<lparr>listForUser := \<lambda>u. Inr (rs1 @ rs2)\<rparr>"
  have same: "manifest D api owner (rs1 @ r # rs2) = manifest D ?api owner (rs1 @ rs2)"
    using assms(5) by (simp add: manifest_drop manifest_other_listing)
  have l: "listForUser ?api owner = Inr (rs1 @ rs2)" by simp
  have w: "writeFile ?api = writeFile api" by simp
  show ?thesis
    unfolding main_listed[OF assms(1-4)] main_listed[OF assms(1-3) l] same w
    by (simp split: option.splits)
qed

lemma main_drop_completes:
  assumes "GITHUB_USER env = Some owner" "owner \<noteq> []" "\<not> falsy (GITHUB_TOKEN env)"
    and "listForUser api owner = Inr (rs1 @ r # rs2)"
    and "emitted api owner r = []"
    and "writeFile api (manifest D api owner (rs1 @ rs2)) = None"
  shows "exit_code (main D env api) = 0
       \<and> written (main D env api) = Some (manifest D api owner (rs1 @ rs2))"
proof -
  have same: "manifest D api owner (rs1 @ r # rs2) = manifest D api owner (rs1 @ rs2)"
    using assms(5) by (rule manifest_drop)
  show ?thesis
    unfolding main_listed[OF assms(1-4)] same by (simp add: assms(6))
qed

lemma collect_skip:
  assumes "\<And>st. process_repo api owner st r = st"
  shows "collect api owner (rs1 @ r # rs2) = collect api owner (rs1 @ rs2)"
  by (simp add: collect_def assms)

text \<open>The console only grows, and keeps what a pass printed.\<close>

lemma console_process_repo_mono:
  "w \<in> set (console st) \<Longrightarrow> w \<in> set (console (process_repo api owner st r))"
  by (simp add: process_repo_def split: sum.splits)

lemma console_foldl_mono:
  "w \<in> set (console st) \<Longrightarrow> w \<in> set (console (foldl (process_repo api owner) st rs))"
  by (induction rs arbitrary: st) (simp_all add: console_process_repo_mono)

lemma console_foldl_member:
  assumes "r \<in> set rs" and "\<And>s. w \<in> set (console (process_repo api owner s r))"
  shows "w \<in> set (console (foldl (process_repo api owner) st rs))"
  using assms(1)
proof (induction rs arbitrary: st)
  case Nil
  then show ?case by simp
next
  case (Cons x rs)
  show ?case
  proof (cases "x = r")
    case True
    then show ?thesis using assms(2) by (simp add: console_foldl_mono)
  next
    case False
    then show ?thesis using Cons by simp
  qed
qed

text \<open>
  The console after the loop is the lines of the passes, in the order of the listing; a
  repository that contributes no record contributes its own lines and nothing else.
\<close>

lemma console_process_repo:
  "console (process_repo api owner st r) = console st @ logged api owner r"
  by (simp add: process_repo_def logged_def split: sum.splits)

lemma console_foldl_process_repo:
  "console (foldl (process_repo api owner) st rs) =
     console st @ concat (map (logged api owner) rs)"
  by (induction rs arbitrary: st) (simp_all add: console_process_repo)

lemma console_collect:
  "console (collect api owner rs) = concat (map (logged api owner) rs)"
  by (simp add: collect_def console_foldl_process_repo)

lemma logged_no_page:
  assumes "\<not> repo_fork r" "\<not> repo_archived r" "getPages api owner (repo_name r) = Inl err"
  shows "logged api owner r =
     (if status err = Some 404 then [] else [Warn_pages_failed (repo_name r) (message err)])"
  using assms by (simp add: logged_def process_repo_def)

lemma main_printed:
  assumes "GITHUB_USER env = Some owner" "owner \<noteq> []" "\<not> falsy (GITHUB_TOKEN env)"
    and "listForUser api owner = Inr repos"
  shows "printed (main D env api) =
     console (collect api owner repos) @
       [case writeFile api (manifest D api owner repos) of
          Some err \<Rightarrow> Error_uncaught err
        | None \<Rightarrow> Log_generated (length (manifest D api owner repos))]"
  unfolding main_listed[OF assms] by (simp split: option.splits)

lemma main_drop_printed:
  assumes "GITHUB_USER env = Some owner" "owner \<noteq> []" "\<not> falsy (GITHUB_TOKEN env)"
    and "listForUser api owner = Inr (rs1 @ r # rs2)"
    and "emitted api owner r = []"
  shows "\<exists>post.
      printed (main D env (api\<lparr>listForUser := \<lambda>u. Inr (rs1 @ rs2)\<rparr>)) =
        console (collect api owner rs1) @ post
    \<and> printed (main D env api) = console (collect api owner rs1) @ logged api owner r @ post"
proof -
  let ?api = "api\<lparr>listForUser := \<lambda>u. Inr (rs1 @ rs2)\<rparr>"
  let ?last = "case writeFile api (manifest D api owner (rs1 @ rs2)) of
          Some err \<Rightarrow> Error_uncaught err
        | None \<Rightarrow> Log_generated (length (manifest D api owner (rs1 @ rs2)))"
  let ?post = "concat (map (logged api owner) rs2) @ [?last]"
  have same: "manifest D api owner (rs1 @ r # rs2) = manifest D api owner (rs1 @ rs2)"
    using assms(5) by (rule manifest_drop)
  have l: "listForUser ?api owner = Inr (rs1 @ rs2)" by simp
  have w: "writeFile ?api = writeFile api" by simp
  have a: "printed (main D env api) =
      console (collect api owner rs1) @ logged api owner r @ ?post"
    unfolding main_printed[OF assms(1-4)] same by (simp add: console_collect)
  have b: "printed (main D env ?api) = console (collect api owner rs1) @ ?post"
    unfolding main_printed[OF assms(1-3) l] w manifest_other_listing collect_other_listing
    by (simp add: console_collect)
  from a b show ?thesis by blast
qed

text \<open>With dates that all parse, the generator's comparator orders by time value.\<close>

lemma SortCompare_newest_first:
  "new_Date D (date a) = Some ta \<Longrightarrow> new_Date D (date b) = Some tb \<Longrightarrow>
   SortCompare (newest_first D) a b = tb - ta"
  by (simp add: SortCompare_def newest_first_def js_minus_def)

lemma sorted_newest_first:
  assumes "\<forall>p\<in>set ps. new_Date D (date p) \<noteq> None"
  shows "sorted_wrt (\<lambda>a b. js_ge (new_Date D (date a)) (new_Date D (date b)))
           (array_sort (newest_first D) ps)"
proof -
  have t: "\<exists>t. new_Date D (date a) = Some t" if "a \<in> set ps" for a
    using that assms by (cases "new_Date D (date a)") auto
  have le: "SortCompare (newest_first D) a b \<le> 0 \<longleftrightarrow> js_ge (new_Date D (date a)) (new_Date D (date b))"
    if a: "a \<in> set ps" and b: "b \<in> set ps" for a b
  proof -
    obtain ta where ta: "new_Date D (date a) = Some ta" using t[OF a] by blast
    obtain tb where tb: "new_Date D (date b) = Some tb" using t[OF b] by blast
    show ?thesis by (simp add: SortCompare_newest_first[OF ta tb] js_ge_def ta tb)
  qed
  have "sorted_wrt (\<lambda>a b. SortCompare (newest_first D) a b \<le> 0) (array_sort (newest_first D) ps)"
  proof (rule sorted_wrt_array_sort)
    show "\<forall>x\<in>set ps. \<forall>y\<in>set ps.
            SortCompare (newest_first D) x y \<le> 0 \<or> SortCompare (newest_first D) y x \<le> 0"
    proof (intro ballI)
      fix x y assume x: "x \<in> set ps" and y: "y \<in> set ps"
      obtain tx where tx: "new_Date D (date x) = Some tx" using t[OF x] by blast
      obtain ty where ty: "new_Date D (date y) = Some ty" using t[OF y] by blast
      show "SortCompare (newest_first D) x y \<le> 0 \<or> SortCompare (newest_first D) y x \<le> 0"
        unfolding SortCompare_newest_first[OF tx ty] SortCompare_newest_first[OF ty tx] by linarith
    qed
    show "\<forall>x\<in>set ps. \<forall>y\<in>set ps. \<forall>z\<in>set ps.
            SortCompare (newest_first D) x y \<le> 0 \<longrightarrow> SortCompare (newest_first D) y z \<le> 0 \<longrightarrow>
            SortCompare (newest_first D) x z \<le> 0"
    proof (intro ballI impI)
      fix x y z assume x: "x \<in> set ps" and y: "y \<in> set ps" and z: "z \<in> set ps"
        and xy: "SortCompare (newest_first D) x y \<le> 0" and yz: "SortCompare (newest_first D) y z \<le> 0"
      obtain tx where tx: "new_Date D (date x) = Some tx" using t[OF x] by blast
      obtain ty where ty: "new_Date D (date y) = Some ty" using t[OF y] by blast
      obtain tz where tz: "new_Date D (date z) = Some tz" using t[OF z] by blast
      show "SortCompare (newest_first D) x z \<le> 0"
        using xy yz
        unfolding SortCompare_newest_first[OF tx ty] SortCompare_newest_first[OF ty tz]
          SortCompare_newest_first[OF tx tz] by linarith
    qed
  qed
  then show ?thesis
  proof (rule sorted_wrt_mono_rel[rotated])
    fix a b assume "a \<in> set (array_sort (newest_first D) ps)" "b \<in> set (array_sort (newest_first D) ps)"
      "SortCompare (newest_first D) a b \<le> 0"
    then show "js_ge (new_Date D (date a)) (new_Date D (date b))"
      using le[of a b] by (simp add: set_array_sort)
  qed
qed

text \<open>
  There the embedded sort is the library's stable sort on the negated time value: the
  insertion sort stands for any stable sort.
\<close>

lemma place_insort_key:
  assumes "new_Date D (date x) \<noteq> None" and "\<forall>y\<in>set ys. new_Date D (date y) \<noteq> None"
  shows "place (newest_first D) x ys = insort_key (\<lambda>p. - the (new_Date D (date p))) x ys"
  using assms
proof (induction ys)
  case Nil
  show ?case by simp
next
  case (Cons y ys)
  obtain tx where tx: "new_Date D (date x) = Some tx" using Cons.prems(1) by blast
  obtain ty where ty: "new_Date D (date y) = Some ty" using Cons.prems(2) by auto
  have IH: "place (newest_first D) x ys = insort_key (\<lambda>p. - the (new_Date D (date p))) x ys"
    using Cons.prems by (intro Cons.IH) simp_all
  show ?case
    by (simp add: SortCompare_newest_first[OF tx ty] tx ty IH)
qed

lemma array_sort_newest_first_sort_key:
  assumes "\<forall>p\<in>set ps. new_Date D (date p) \<noteq> None"
  shows "array_sort (newest_first D) ps = sort_key (\<lambda>p. - the (new_Date D (date p))) ps"
  using assms
proof (induction ps)
  case Nil
  show ?case by (simp add: array_sort_def)
next
  case (Cons x ps)
  have IH: "array_sort (newest_first D) ps = sort_key (\<lambda>p. - the (new_Date D (date p))) ps"
    using Cons.prems by (intro Cons.IH) simp
  have "place (newest_first D) x (array_sort (newest_first D) ps) =
        insort_key (\<lambda>p. - the (new_Date D (date p))) x (array_sort (newest_first D) ps)"
    using Cons.prems by (intro place_insort_key) (simp_all add: set_array_sort)
  then show ?case using IH by (simp add: array_sort_def)
qed

section \<open>Facts about the page script\<close>

text \<open>
  The substring test of the specification is the one \<open>includes\<close> computes, and the filter
  callback is the specification's predicate at the trimmed search text.
\<close>

lemma ci_substring_includes:
  "ci_substring toLowerCase q field =
     (case field of None \<Rightarrow> False | Some s \<Rightarrow> includes_js (toLowerCase s) (toLowerCase q))"
  by (simp add: ci_substring_def includes_js_iff split: option.splits)

lemma keep_shown_for:
  assumes "\<forall>s. toLowerCase s = [] \<longleftrightarrow> s = []"
  shows "keep toLowerCase c p = shown_for toLowerCase (trim (searchInput c)) (tagFilter c) p"
proof -
  have e: "toLowerCase q = [] \<longleftrightarrow> q = []" for q
    using assms by blast
  have a: "(toLowerCase q = [] \<or> (case f of None \<Rightarrow> False
              | Some n \<Rightarrow> n \<noteq> [] \<and> includes_js (toLowerCase n) (toLowerCase q))) =
           (q = [] \<or> ci_substring toLowerCase q f)" for q f
  proof (cases f)
    case None
    then show ?thesis by (simp add: ci_substring_includes e)
  next
    case (Some n)
    show ?thesis
    proof (cases "n = []")
      case True
      have z: "toLowerCase [] = []" using e[of "[]"] by simp
      show ?thesis using Some True by (simp add: ci_substring_includes z e)
    next
      case False
      then show ?thesis using Some by (simp add: ci_substring_includes e)
    qed
  qed
  show ?thesis
    unfolding keep_def shown_for_def Let_def
    using a[of "trim (searchInput c)" "name p"] a[of "trim (searchInput c)" "description p"]
    by blast
qed

lemma keep_trim_cong:
  "trim s = trim s' \<Longrightarrow>
   keep toLowerCase (c\<lparr>searchInput := s\<rparr>) = keep toLowerCase (c\<lparr>searchInput := s'\<rparr>)"
  by (intro ext) (simp add: keep_def)

lemma render_trim_cong:
  assumes "trim s = trim s'"
  shows "filtered toLowerCase D (c\<lparr>searchInput := s\<rparr>) ps =
         filtered toLowerCase D (c\<lparr>searchInput := s'\<rparr>) ps"
    and "render toLowerCase D (c\<lparr>searchInput := s\<rparr>) ps =
         render toLowerCase D (c\<lparr>searchInput := s'\<rparr>) ps"
  using keep_trim_cong[OF assms, of toLowerCase c] by (simp_all add: filtered_def render_def)

text \<open>A date that does not parse ties with everything; equal time values tie as well.\<close>

lemma SortCompare_undated:
  assumes "new_Date D (date p) = None"
  shows "SortCompare (newest_first D) p q = 0" "SortCompare (newest_first D) q p = 0"
    "SortCompare (by_date D v) p q = 0" "SortCompare (by_date D v) q p = 0"
  using assms
  by (simp_all add: SortCompare_def newest_first_def by_date_def js_minus_def Let_def
      split: option.splits)

lemma SortCompare_same:
  assumes "new_Date D (date p) = Some t" "new_Date D (date q) = Some t"
  shows "SortCompare (newest_first D) p q = 0" "SortCompare (by_date D v) p q = 0"
  using assms
  by (simp_all add: SortCompare_def newest_first_def by_date_def js_minus_def Let_def)

lemma date_label_unparseable:
  assumes "date p = Some s" "s \<noteq> []" "parse D s = None"
  shows "update_date (card_of D p) = updated_prefix"
  using assms by (simp add: card_of_def formatDate_def)

section \<open>Evaluating the sample data\<close>

lemmas string_eval = js_def trim_def isWhiteSpace_def sample_toLowerCase_def sample_lower_unit_def

lemmas page_eval = filtered_def keep_def by_date_def array_sort_def SortCompare_def new_Date_def
  js_minus_def sample_Date_def sample_parse_def shown_for_def ci_substring_includes Let_def

lemmas sample_eval = project_A_def project_B_def project_undated_def record_blog_def
  record_site_def record_undated_def

lemma octocat_env:
  "GITHUB_USER (sample_env (js ''octocat'')) = Some (js ''octocat'')"
  "js ''octocat'' \<noteq> []"
  "\<not> falsy (GITHUB_TOKEN (sample_env (js ''octocat'')))"
  by (simp_all add: sample_env_def falsy_def js_def)

lemma octocat_written:
  "written (main sample_Date (sample_env (js ''octocat'')) sample_api) = Some [record_blog, record_site]"
  by code_simp

lemma hubot_written:
  "written (main sample_Date (sample_env (js ''hubot'')) sample_api) = Some [record_undated, record_site]"
  by code_simp

text \<open>
  The example of the specification: in the manifest of \<open>A\<close> (2023-01-01, topic \<open>x\<close>) and \<open>B\<close>
  (2023-06-01, topic \<open>y\<close>), searching \<open>a\<close> shows \<open>A\<close> alone, the tag \<open>y\<close> shows \<open>B\<close> alone, the
  ascending order is \<open>A\<close>, \<open>B\<close> and the descending order \<open>B\<close>, \<open>A\<close>.
\<close>

lemma specification_example:
  "filtered sample_toLowerCase sample_Date \<lparr>searchInput = js ''a'', tagFilter = [], sortOrder = js ''desc''\<rparr>
     [project_A, project_B] = [project_A]"
  "filtered sample_toLowerCase sample_Date \<lparr>searchInput = [], tagFilter = js ''y'', sortOrder = js ''desc''\<rparr>
     [project_A, project_B] = [project_B]"
  "filtered sample_toLowerCase sample_Date \<lparr>searchInput = [], tagFilter = [], sortOrder = js ''asc''\<rparr>
     [project_A, project_B] = [project_A, project_B]"
  "filtered sample_toLowerCase sample_Date \<lparr>searchInput = [], tagFilter = [], sortOrder = js ''desc''\<rparr>
     [project_A, project_B] = [project_B, project_A]"
  by (simp_all add: string_eval page_eval sample_eval)

lemma formatDate_example:
  "formatDate sample_Date (js ''2024-02-29'') = js ''2024-02-29''"
  by code_simp

section \<open>The claims\<close>

subsection \<open>C1: the render predicate\<close>

text \<open>
  C1 says that \<open>render\<close> shows a record exactly when the search text is empty or a
  case-insensitive substring of the name or of the description, and the selected tag is the
  "all" choice or an element of the record's topics. \<open>render\<close> does so for the search text
  with the blank code units at its two ends removed, not for the text as typed, and it sets
  case aside by lower-casing both sides with \<open>toLowerCase\<close>: the records it shows are those
  of the list that satisfy \<open>shown_for\<close> at the trimmed text, in the order of the sort, one
  card each. This holds for every \<open>toLowerCase\<close> that maps the empty string, and no other, to
  the empty string, as \<open>String.prototype.toLowerCase\<close> does.
\<close>

theorem filter_predicate:
  assumes "\<forall>s. toLowerCase s = [] \<longleftrightarrow> s = []"
  shows "filtered toLowerCase D c ps =
     array_sort (by_date D (sortOrder c))
       (filter (shown_for toLowerCase (trim (searchInput c)) (tagFilter c)) ps)
   \<and> (p \<in> set (filtered toLowerCase D c ps) \<longleftrightarrow>
        p \<in> set ps \<and> shown_for toLowerCase (trim (searchInput c)) (tagFilter c) p)
   \<and> render toLowerCase D c ps = map (card_of D) (filtered toLowerCase D c ps)"
proof -
  have "keep toLowerCase c = shown_for toLowerCase (trim (searchInput c)) (tagFilter c)"
    by (intro ext) (rule keep_shown_for[OF assms])
  then show ?thesis
    by (simp add: filtered_def render_def set_array_sort)
qed

text \<open>The example manifest: \<open>a\<close> shows \<open>A\<close> and not \<open>B\<close>, the tag \<open>y\<close> shows \<open>B\<close> and not \<open>A\<close>.\<close>

theorem filter_predicate_witness:
  "project_A \<in> set (filtered sample_toLowerCase sample_Date
       \<lparr>searchInput = js ''a'', tagFilter = [], sortOrder = js ''desc''\<rparr> [project_A, project_B])
   \<and> project_B \<notin> set (filtered sample_toLowerCase sample_Date
       \<lparr>searchInput = js ''a'', tagFilter = [], sortOrder = js ''desc''\<rparr> [project_A, project_B])
   \<and> project_A \<notin> set (filtered sample_toLowerCase sample_Date
       \<lparr>searchInput = [], tagFilter = js ''y'', sortOrder = js ''desc''\<rparr> [project_A, project_B])
   \<and> project_B \<in> set (filtered sample_toLowerCase sample_Date
       \<lparr>searchInput = [], tagFilter = js ''y'', sortOrder = js ''desc''\<rparr> [project_A, project_B])"
proof -
  have a: "shown_for sample_toLowerCase (trim (js ''a'')) [] project_A" by (simp add: string_eval page_eval sample_eval)
  have b: "\<not> shown_for sample_toLowerCase (trim (js ''a'')) [] project_B" by (simp add: string_eval page_eval sample_eval)
  have c: "\<not> shown_for sample_toLowerCase (trim []) (js ''y'') project_A" by (simp add: string_eval page_eval sample_eval)
  have d: "shown_for sample_toLowerCase (trim []) (js ''y'') project_B" by (simp add: string_eval page_eval sample_eval)
  have e: "\<forall>s. sample_toLowerCase s = [] \<longleftrightarrow> s = []"
    by (simp add: sample_toLowerCase_def)
  show ?thesis
    using a b c d
      filter_predicate[where toLowerCase = sample_toLowerCase and p = project_A and D = sample_Date
        and ps = "[project_A, project_B]"
        and c = "\<lparr>searchInput = js ''a'', tagFilter = [], sortOrder = js ''desc''\<rparr>",
        OF e, THEN conjunct2, THEN conjunct1]
      filter_predicate[where toLowerCase = sample_toLowerCase and p = project_B and D = sample_Date
        and ps = "[project_A, project_B]"
        and c = "\<lparr>searchInput = js ''a'', tagFilter = [], sortOrder = js ''desc''\<rparr>",
        OF e, THEN conjunct2, THEN conjunct1]
      filter_predicate[where toLowerCase = sample_toLowerCase and p = project_A and D = sample_Date
        and ps = "[project_A, project_B]"
        and c = "\<lparr>searchInput = [], tagFilter = js ''y'', sortOrder = js ''desc''\<rparr>",
        OF e, THEN conjunct2, THEN conjunct1]
      filter_predicate[where toLowerCase = sample_toLowerCase and p = project_B and D = sample_Date
        and ps = "[project_A, project_B]"
        and c = "\<lparr>searchInput = [], tagFilter = js ''y'', sortOrder = js ''desc''\<rparr>",
        OF e, THEN conjunct2, THEN conjunct1]
    by simp
qed

text \<open>
  For the text as typed the statement fails. With one space in the search box \<open>render\<close> shows
  \<open>A\<close>, though the text is neither empty nor a substring of \<open>A\<close>'s name or description in any
  case; with a space followed by \<open>a\<close> it shows \<open>A\<close> as well.
\<close>

theorem filter_untrimmed_counterexample:
  "project_A \<in> set (filtered sample_toLowerCase sample_Date
       \<lparr>searchInput = js '' '', tagFilter = [], sortOrder = js ''desc''\<rparr> [project_A])
   \<and> \<not> shown_for sample_toLowerCase (js '' '') [] project_A
   \<and> project_A \<in> set (filtered sample_toLowerCase sample_Date
       \<lparr>searchInput = js '' a'', tagFilter = [], sortOrder = js ''desc''\<rparr> [project_A])
   \<and> \<not> shown_for sample_toLowerCase (js '' a'') [] project_A"
proof -
  have "filtered sample_toLowerCase sample_Date
       \<lparr>searchInput = js '' '', tagFilter = [], sortOrder = js ''desc''\<rparr> [project_A] = [project_A]"
    by (simp add: string_eval page_eval sample_eval)
  moreover have "\<not> shown_for sample_toLowerCase (js '' '') [] project_A" by (simp add: string_eval page_eval sample_eval)
  moreover have "filtered sample_toLowerCase sample_Date
       \<lparr>searchInput = js '' a'', tagFilter = [], sortOrder = js ''desc''\<rparr> [project_A] = [project_A]"
    by (simp add: string_eval page_eval sample_eval)
  moreover have "\<not> shown_for sample_toLowerCase (js '' a'') [] project_A" by (simp add: string_eval page_eval sample_eval)
  ultimately show ?thesis by simp
qed

subsection \<open>C2: the manifest is ordered newest first\<close>

text \<open>
  C2 says that in the array the generator writes every record's time stamp is greater than or
  equal to that of the record after it. That holds of every written array whose dates all
  parse, as the time stamps of the listing do; the comparison \<open>js_ge\<close> is the one of
  JavaScript numbers, false against NaN.
\<close>

theorem manifest_newest_first:
  assumes "written (main D env api) = Some m"
    and "\<forall>p\<in>set m. new_Date D (date p) \<noteq> None"
    and "Suc i < length m"
  shows "js_ge (new_Date D (date (m ! i))) (new_Date D (date (m ! Suc i)))"
proof -
  from main_written[OF assms(1)] obtain owner repos where
    m: "m = manifest D api owner repos" by blast
  have "\<forall>p\<in>set (projects (collect api owner repos)). new_Date D (date p) \<noteq> None"
    using assms(2) by (simp add: m manifest_def set_array_sort)
  then have "sorted_wrt (\<lambda>a b. js_ge (new_Date D (date a)) (new_Date D (date b))) m"
    unfolding m manifest_def by (rule sorted_newest_first)
  then show ?thesis
    using assms(3) sorted_wrt_nth_less[of _ m i "Suc i"] by simp
qed

theorem manifest_newest_first_witness:
  "js_ge (new_Date sample_Date (date record_blog)) (new_Date sample_Date (date record_site))
   \<and> new_Date sample_Date (date record_blog) = Some 1685577600000
   \<and> new_Date sample_Date (date record_site) = Some 1672531200000"
proof -
  have d: "new_Date sample_Date (date record_blog) = Some 1685577600000"
    "new_Date sample_Date (date record_site) = Some 1672531200000"
    by (simp_all add: new_Date_def sample_Date_def sample_parse_def record_blog_def
        record_site_def js_def)
  have all: "\<forall>p\<in>set [record_blog, record_site]. new_Date sample_Date (date p) \<noteq> None"
    using d by simp
  have i: "Suc 0 < length [record_blog, record_site]" by simp
  show ?thesis
    using manifest_newest_first[OF octocat_written all i] d by simp
qed

text \<open>
  Without that condition it fails: for the account \<open>hubot\<close> the first record written has a
  date that does not parse, so it is not greater than or equal to the one after it.
\<close>

theorem manifest_unordered_counterexample:
  "written (main sample_Date (sample_env (js ''hubot'')) sample_api) =
     Some [record_undated, record_site]
   \<and> new_Date sample_Date (date ([record_undated, record_site] ! 0)) = None
   \<and> \<not> js_ge (new_Date sample_Date (date ([record_undated, record_site] ! 0)))
            (new_Date sample_Date (date ([record_undated, record_site] ! Suc 0)))"
proof -
  have "new_Date sample_Date (date record_undated) = None"
    by (simp add: new_Date_def sample_Date_def sample_parse_def record_undated_def js_def)
  then show ?thesis using hubot_written by (simp add: js_ge_def)
qed

subsection \<open>C3: a failed page lookup skips the repository\<close>

text \<open>
  C3: when the page request of a repository fails, the pass of the loop adds no record; it
  prints nothing when the status is 404 and one warning otherwise, and it has made the one
  page request. The run goes on: it writes the file, and ends with the exit status, that it
  would have written and ended with had the repository not been listed, and where that
  write succeeds the exit status is 0. The lines the run prints are those of the run without
  the repository, with the warning put in after the lines of the repositories listed before
  it: nothing more when the status is 404, the warning among them otherwise.
\<close>

theorem pages_failure_skips:
  assumes "GITHUB_USER env = Some owner" "owner \<noteq> []" "\<not> falsy (GITHUB_TOKEN env)"
    and "listForUser api owner = Inr (rs1 @ r # rs2)"
    and "\<not> repo_fork r" "\<not> repo_archived r"
    and "getPages api owner (repo_name r) = Inl err"
  shows "process_repo api owner st r =
           st\<lparr>console := console st @
                 (if status err = Some 404 then []
                  else [Warn_pages_failed (repo_name r) (message err)]),
              calls := calls st @ [GetPages owner (repo_name r)]\<rparr>
         \<and> written (main D env api) = written (main D env (api\<lparr>listForUser := \<lambda>u. Inr (rs1 @ rs2)\<rparr>))
         \<and> exit_code (main D env api) = exit_code (main D env (api\<lparr>listForUser := \<lambda>u. Inr (rs1 @ rs2)\<rparr>))
         \<and> (writeFile api (manifest D api owner (rs1 @ rs2)) = None \<longrightarrow>
              exit_code (main D env api) = 0
              \<and> written (main D env api) = Some (manifest D api owner (rs1 @ rs2)))
         \<and> (\<exists>post.
              printed (main D env (api\<lparr>listForUser := \<lambda>u. Inr (rs1 @ rs2)\<rparr>)) =
                console (collect api owner rs1) @ post
              \<and> printed (main D env api) =
                console (collect api owner rs1) @
                (if status err = Some 404 then []
                 else [Warn_pages_failed (repo_name r) (message err)]) @ post)
         \<and> (status err \<noteq> Some 404 \<longrightarrow>
              Warn_pages_failed (repo_name r) (message err) \<in> set (printed (main D env api)))
         \<and> (status err = Some 404 \<longrightarrow>
              printed (main D env api) =
              printed (main D env (api\<lparr>listForUser := \<lambda>u. Inr (rs1 @ rs2)\<rparr>)))"
proof -
  let ?api = "api\<lparr>listForUser := \<lambda>u. Inr (rs1 @ rs2)\<rparr>"
  let ?warn = "if status err = Some 404 then []
               else [Warn_pages_failed (repo_name r) (message err)]"
  have step: "process_repo api owner st r =
           st\<lparr>console := console st @ ?warn,
              calls := calls st @ [GetPages owner (repo_name r)]\<rparr>"
    using assms(5-7) by (simp add: process_repo_def)
  have e: "emitted api owner r = []"
    using assms(7) by (rule emitted_no_page)
  have lg: "logged api owner r = ?warn"
    using assms(5-7) by (rule logged_no_page)
  from main_drop_printed[OF assms(1-4) e, of D] obtain post where
    p': "printed (main D env ?api) = console (collect api owner rs1) @ post" and
    p: "printed (main D env api) = console (collect api owner rs1) @ ?warn @ post"
    unfolding lg by blast
  have splice: "\<exists>post. printed (main D env ?api) = console (collect api owner rs1) @ post
      \<and> printed (main D env api) = console (collect api owner rs1) @ ?warn @ post"
    using p' p by blast
  have loud: "status err \<noteq> Some 404 \<longrightarrow>
      Warn_pages_failed (repo_name r) (message err) \<in> set (printed (main D env api))"
    unfolding p by simp
  have silent: "status err = Some 404 \<longrightarrow> printed (main D env api) = printed (main D env ?api)"
    unfolding p p' by simp
  note run = main_drop[OF assms(1-4) e, of D]
  have fin: "writeFile api (manifest D api owner (rs1 @ rs2)) = None \<longrightarrow>
              exit_code (main D env api) = 0
              \<and> written (main D env api) = Some (manifest D api owner (rs1 @ rs2))"
    using main_drop_completes[OF assms(1-4) e, of D] by blast
  show ?thesis
    using step run[THEN conjunct1] run[THEN conjunct2] fin splice loud silent
    by (intro conjI)
qed

theorem pages_failure_skips_witness:
  "process_repo sample_api (js ''octocat'') \<lparr>projects = [], console = [], calls = []\<rparr> repo_plain =
     \<lparr>projects = [], console = [], calls = [GetPages (js ''octocat'') (js ''plain'')]\<rparr>
   \<and> process_repo sample_api (js ''octocat'') \<lparr>projects = [], console = [], calls = []\<rparr> repo_flaky =
     \<lparr>projects = [], console = [Warn_pages_failed (js ''flaky'') (js ''Server Error'')],
      calls = [GetPages (js ''octocat'') (js ''flaky'')]\<rparr>
   \<and> written (main sample_Date (sample_env (js ''octocat'')) sample_api) =
     written (main sample_Date (sample_env (js ''octocat''))
       (sample_api\<lparr>listForUser := \<lambda>u. Inr ([repo_site, repo_forked] @ [repo_blog, repo_flaky, repo_old])\<rparr>))
   \<and> (exit_code (main sample_Date (sample_env (js ''octocat'')) sample_api) = 0
   \<and> written (main sample_Date (sample_env (js ''octocat'')) sample_api) =
     Some (manifest sample_Date sample_api (js ''octocat'')
       ([repo_site, repo_forked, repo_plain, repo_blog] @ [repo_old])))
   \<and> Warn_pages_failed (js ''flaky'') (js ''Server Error'')
       \<in> set (printed (main sample_Date (sample_env (js ''octocat'')) sample_api))
   \<and> printed (main sample_Date (sample_env (js ''octocat'')) sample_api) =
     printed (main sample_Date (sample_env (js ''octocat''))
       (sample_api\<lparr>listForUser := \<lambda>u. Inr ([repo_site, repo_forked] @ [repo_blog, repo_flaky, repo_old])\<rparr>))"
proof -
  have l1: "listForUser sample_api (js ''octocat'') =
      Inr ([repo_site, repo_forked] @ repo_plain # [repo_blog, repo_flaky, repo_old])"
    by (simp add: sample_api_def)
  have l2: "listForUser sample_api (js ''octocat'') =
      Inr ([repo_site, repo_forked, repo_plain, repo_blog] @ repo_flaky # [repo_old])"
    by (simp add: sample_api_def)
  have f1: "\<not> repo_fork repo_plain" "\<not> repo_archived repo_plain"
    by (simp_all add: repo_plain_def)
  have f2: "\<not> repo_fork repo_flaky" "\<not> repo_archived repo_flaky"
    by (simp_all add: repo_flaky_def)
  have p1: "getPages sample_api (js ''octocat'') (repo_name repo_plain) =
      Inl \<lparr>status = Some 404, message = js ''Not Found''\<rparr>"
    by (simp add: sample_api_def repo_plain_def)
  have p2: "getPages sample_api (js ''octocat'') (repo_name repo_flaky) =
      Inl \<lparr>status = Some 500, message = js ''Server Error''\<rparr>"
    by (simp add: sample_api_def repo_flaky_def js_def)
  have w: "writeFile sample_api ps = None" for ps
    by (simp add: sample_api_def)
  have s1: "status \<lparr>status = Some 404, message = js ''Not Found''\<rparr> = Some 404" by simp
  have s2: "status \<lparr>status = Some 500, message = js ''Server Error''\<rparr> \<noteq> Some 404" by simp
  note plain = pages_failure_skips[OF octocat_env l1 f1 p1,
      of "\<lparr>projects = [], console = [], calls = []\<rparr>" sample_Date]
  note flaky = pages_failure_skips[OF octocat_env l2 f2 p2,
      of "\<lparr>projects = [], console = [], calls = []\<rparr>" sample_Date]
  have 1: "process_repo sample_api (js ''octocat'') \<lparr>projects = [], console = [], calls = []\<rparr>
      repo_plain =
     \<lparr>projects = [], console = [], calls = [GetPages (js ''octocat'') (js ''plain'')]\<rparr>"
    using plain[THEN conjunct1] by (simp add: repo_plain_def)
  have 2: "process_repo sample_api (js ''octocat'') \<lparr>projects = [], console = [], calls = []\<rparr>
      repo_flaky =
     \<lparr>projects = [], console = [Warn_pages_failed (js ''flaky'') (js ''Server Error'')],
      calls = [GetPages (js ''octocat'') (js ''flaky'')]\<rparr>"
    using flaky[THEN conjunct1] by (simp add: repo_flaky_def)
  note 3 = plain[THEN conjunct2, THEN conjunct1]
  note 4 = flaky[THEN conjunct2, THEN conjunct2, THEN conjunct2, THEN conjunct1, THEN mp, OF w]
  have 5: "Warn_pages_failed (js ''flaky'') (js ''Server Error'')
       \<in> set (printed (main sample_Date (sample_env (js ''octocat'')) sample_api))"
    using flaky[THEN conjunct2, THEN conjunct2, THEN conjunct2, THEN conjunct2, THEN conjunct2,
        THEN conjunct1, THEN mp, OF s2]
    by (simp add: repo_flaky_def)
  note 6 = plain[THEN conjunct2, THEN conjunct2, THEN conjunct2, THEN conjunct2, THEN conjunct2,
        THEN conjunct2, THEN mp, OF s1]
  from 1 2 3 4 5 6 show ?thesis by blast
qed

subsection \<open>C4: forks and archived repositories are left out\<close>

text \<open>
  C4: for a repository flagged as a fork or as archived the pass of the loop changes nothing
  (no request, no line, no record), whatever the page request would answer, and the whole
  run is the run of the listing without that repository.
\<close>

theorem fork_or_archived_skipped:
  assumes "GITHUB_USER env = Some owner" "owner \<noteq> []" "\<not> falsy (GITHUB_TOKEN env)"
    and "listForUser api owner = Inr (rs1 @ r # rs2)"
    and "repo_fork r \<or> repo_archived r"
  shows "process_repo api owner st r = st
       \<and> main D env api = main D env (api\<lparr>listForUser := \<lambda>u. Inr (rs1 @ rs2)\<rparr>)"
proof -
  let ?api = "api\<lparr>listForUser := \<lambda>u. Inr (rs1 @ rs2)\<rparr>"
  have step: "process_repo api owner s r = s" for s
    using assms(5) by (simp add: process_repo_def)
  have c: "collect api owner (rs1 @ r # rs2) = collect ?api owner (rs1 @ rs2)"
    using step by (simp add: collect_skip collect_other_listing)
  have m: "manifest D api owner (rs1 @ r # rs2) = manifest D ?api owner (rs1 @ rs2)"
    using c by (simp add: manifest_def)
  have l: "listForUser ?api owner = Inr (rs1 @ rs2)" by simp
  have w: "writeFile ?api = writeFile api" by simp
  have "main D env api = main D env ?api"
    unfolding main_listed[OF assms(1-4)] main_listed[OF assms(1-3) l] c m w by simp
  then show ?thesis using step by simp
qed

theorem fork_or_archived_skipped_witness:
  "getPages sample_api (js ''octocat'') (repo_name repo_forked) =
     Inr \<lparr>html_url = js ''https://example.org/forked/''\<rparr>
   \<and> process_repo sample_api (js ''octocat'') \<lparr>projects = [], console = [], calls = []\<rparr> repo_forked =
     \<lparr>projects = [], console = [], calls = []\<rparr>
   \<and> main sample_Date (sample_env (js ''octocat'')) sample_api =
     main sample_Date (sample_env (js ''octocat''))
       (sample_api\<lparr>listForUser := \<lambda>u. Inr ([repo_site] @ [repo_plain, repo_blog, repo_flaky, repo_old])\<rparr>)
   \<and> main sample_Date (sample_env (js ''octocat'')) sample_api =
     main sample_Date (sample_env (js ''octocat''))
       (sample_api\<lparr>listForUser := \<lambda>u. Inr ([repo_site, repo_forked, repo_plain, repo_blog, repo_flaky] @ [])\<rparr>)"
proof -
  have l1: "listForUser sample_api (js ''octocat'') =
      Inr ([repo_site] @ repo_forked # [repo_plain, repo_blog, repo_flaky, repo_old])"
    by (simp add: sample_api_def)
  have l2: "listForUser sample_api (js ''octocat'') =
      Inr ([repo_site, repo_forked, repo_plain, repo_blog, repo_flaky] @ repo_old # [])"
    by (simp add: sample_api_def)
  have f1: "repo_fork repo_forked \<or> repo_archived repo_forked"
    by (simp add: repo_forked_def)
  have f2: "repo_fork repo_old \<or> repo_archived repo_old"
    by (simp add: repo_old_def)
  have p: "getPages sample_api (js ''octocat'') (repo_name repo_forked) =
     Inr \<lparr>html_url = js ''https://example.org/forked/''\<rparr>"
    by (simp add: sample_api_def repo_forked_def js_def)
  show ?thesis
    using fork_or_archived_skipped[OF octocat_env l1 f1, of "\<lparr>projects = [], console = [], calls = []\<rparr>" sample_Date]
      fork_or_archived_skipped[OF octocat_env l2 f2, of "\<lparr>projects = [], console = [], calls = []\<rparr>" sample_Date] p
    by simp
qed

subsection \<open>C5: a failed topics request keeps the record\<close>

text \<open>
  C5: when a repository that the loop looks up has a page and its topics request fails, the
  pass appends its record with an empty topics list and prints a warning; the record is in
  the file the run writes, and the warning among the lines it prints.
\<close>

theorem topics_failure_keeps_record:
  assumes "written (main D env api) = Some m"
    and "GITHUB_USER env = Some owner" "listForUser api owner = Inr repos" "r \<in> set repos"
    and "\<not> repo_fork r" "\<not> repo_archived r"
    and "getPages api owner (repo_name r) = Inr pagesConfig"
    and "getAllTopics api owner (repo_name r) = Inl err"
  shows "process_repo api owner st r =
           st\<lparr>projects := projects st @
                [\<lparr>name = Some (repo_name r), repo = Some (repo_name r),
                  url = Some (html_url pagesConfig),
                  description = Some (or_else (repo_description r) []),
                  topics = Some [], date = Some (repo_updated_at r), screenshot = Some []\<rparr>],
              console := console st @ [Warn_topics_failed (repo_name r) (message err)],
              calls := calls st @
                [GetPages owner (repo_name r), GetAllTopics owner (repo_name r)]\<rparr>
       \<and> \<lparr>name = Some (repo_name r), repo = Some (repo_name r),
           url = Some (html_url pagesConfig),
           description = Some (or_else (repo_description r) []),
           topics = Some [], date = Some (repo_updated_at r), screenshot = Some []\<rparr> \<in> set m
       \<and> Warn_topics_failed (repo_name r) (message err) \<in> set (printed (main D env api))"
proof -
  let ?rec = "\<lparr>name = Some (repo_name r), repo = Some (repo_name r),
           url = Some (html_url pagesConfig),
           description = Some (or_else (repo_description r) []),
           topics = Some [], date = Some (repo_updated_at r), screenshot = Some []\<rparr>"
  have step: "process_repo api owner s r =
           s\<lparr>projects := projects s @ [?rec],
              console := console s @ [Warn_topics_failed (repo_name r) (message err)],
              calls := calls s @
                [GetPages owner (repo_name r), GetAllTopics owner (repo_name r)]\<rparr>" for s
    using assms(5-8) by (simp add: process_repo_def)
  have em: "emitted api owner r = [?rec]"
    by (simp add: emitted_def step)
  from main_written[OF assms(1)] assms(2,3)
  have m: "m = manifest D api owner repos" and ok: "owner \<noteq> []" "\<not> falsy (GITHUB_TOKEN env)"
    by auto
  have "?rec \<in> set (concat (map (emitted api owner) repos))"
    using assms(4) em by (auto intro!: bexI[of _ r])
  then have in_m: "?rec \<in> set m"
    by (simp add: m manifest_def set_array_sort projects_collect)
  have "Warn_topics_failed (repo_name r) (message err) \<in> set (console (collect api owner repos))"
    unfolding collect_def using assms(4) by (rule console_foldl_member) (simp add: step)
  moreover have "printed (main D env api) =
      console (collect api owner repos) @ [Log_generated (length (manifest D api owner repos))]"
    using assms(1) unfolding main_listed[OF assms(2) ok assms(3)]
    by (simp split: option.splits)
  ultimately have "Warn_topics_failed (repo_name r) (message err) \<in> set (printed (main D env api))"
    by simp
  then show ?thesis using step in_m by simp
qed

theorem topics_failure_keeps_record_witness:
  "process_repo sample_api (js ''octocat'') \<lparr>projects = [], console = [], calls = []\<rparr> repo_blog =
     \<lparr>projects = [record_blog],
      console = [Warn_topics_failed (js ''blog'') (js ''Server Error'')],
      calls = [GetPages (js ''octocat'') (js ''blog''), GetAllTopics (js ''octocat'') (js ''blog'')]\<rparr>
   \<and> record_blog \<in> set [record_blog, record_site]
   \<and> Warn_topics_failed (js ''blog'') (js ''Server Error'')
       \<in> set (printed (main sample_Date (sample_env (js ''octocat'')) sample_api))"
proof -
  have l: "listForUser sample_api (js ''octocat'') =
      Inr [repo_site, repo_forked, repo_plain, repo_blog, repo_flaky, repo_old]"
    by (simp add: sample_api_def)
  have r: "repo_blog \<in> set [repo_site, repo_forked, repo_plain, repo_blog, repo_flaky, repo_old]"
    by simp
  have f: "\<not> repo_fork repo_blog" "\<not> repo_archived repo_blog"
    by (simp_all add: repo_blog_def)
  have p: "getPages sample_api (js ''octocat'') (repo_name repo_blog) =
      Inr \<lparr>html_url = js ''https://example.org/blog/''\<rparr>"
    by (simp add: sample_api_def repo_blog_def js_def)
  have t: "getAllTopics sample_api (js ''octocat'') (repo_name repo_blog) =
      Inl \<lparr>status = Some 500, message = js ''Server Error''\<rparr>"
    by (simp add: sample_api_def repo_blog_def)
  show ?thesis
    using topics_failure_keeps_record[OF octocat_written octocat_env(1) l r f p t,
        of "\<lparr>projects = [], console = [], calls = []\<rparr>"]
    by (simp add: repo_blog_def record_blog_def or_else_def)
qed

subsection \<open>C6: missing credentials end the run\<close>

text \<open>
  C6: when \<open>GITHUB_USER\<close> or \<open>GITHUB_TOKEN\<close> is not set (or is empty), the run ends with exit
  status 1 after printing the message that names the missing variable; it has made no
  request and written no file.
\<close>

theorem missing_credentials_fatal:
  assumes "falsy (GITHUB_USER env) \<or> falsy (GITHUB_TOKEN env)"
  shows "main D env api =
           \<lparr>exit_code = 1,
            printed = [if falsy (GITHUB_USER env) then Error_user_unset else Error_token_unset],
            requested = [], written = None\<rparr>"
  using assms by (auto simp: main_def)

theorem missing_credentials_fatal_witness:
  "main sample_Date \<lparr>GITHUB_USER = Some (js ''octocat''), GITHUB_TOKEN = None\<rparr> sample_api =
     \<lparr>exit_code = 1, printed = [Error_token_unset], requested = [], written = None\<rparr>
   \<and> main sample_Date \<lparr>GITHUB_USER = None, GITHUB_TOKEN = Some (js ''token'')\<rparr> sample_api =
     \<lparr>exit_code = 1, printed = [Error_user_unset], requested = [], written = None\<rparr>"
proof -
  have a: "falsy (GITHUB_USER \<lparr>GITHUB_USER = Some (js ''octocat''), GITHUB_TOKEN = None\<rparr>)
         \<or> falsy (GITHUB_TOKEN \<lparr>GITHUB_USER = Some (js ''octocat''), GITHUB_TOKEN = None\<rparr>)"
    by (simp add: falsy_def)
  have b: "falsy (GITHUB_USER \<lparr>GITHUB_USER = None, GITHUB_TOKEN = Some (js ''token'')\<rparr>)
         \<or> falsy (GITHUB_TOKEN \<lparr>GITHUB_USER = None, GITHUB_TOKEN = Some (js ''token'')\<rparr>)"
    by (simp add: falsy_def)
  show ?thesis
    using missing_credentials_fatal[OF a, of sample_Date sample_api]
      missing_credentials_fatal[OF b, of sample_Date sample_api]
    by (simp add: falsy_def js_def)
qed

subsection \<open>C7: a date that does not parse\<close>

text \<open>
  C7 says that a record whose date does not parse is placed last by the generator's sort and
  by the page's sort in either direction. Neither sort does that. The comparator yields NaN
  for such a record against every record and in both directions, which the sort takes for a
  tie, so the record is not moved: in a list whose parsing dates all have one time value both
  sorts return their input as it is.
\<close>

theorem unparseable_date_ties:
  assumes "new_Date D (date p) = None"
    and "\<forall>r\<in>set ps. new_Date D (date r) = None \<or> new_Date D (date r) = Some t"
  shows "SortCompare (newest_first D) p q = 0 \<and> SortCompare (newest_first D) q p = 0
       \<and> SortCompare (by_date D v) p q = 0 \<and> SortCompare (by_date D v) q p = 0
       \<and> array_sort (newest_first D) ps = ps
       \<and> filtered toLowerCase D c ps = filter (keep toLowerCase c) ps"
proof -
  have tie: "SortCompare (newest_first D) a b \<le> 0 \<and> SortCompare (by_date D v') a b \<le> 0"
    if a: "a \<in> set ps" and b: "b \<in> set ps" for a b v'
  proof (cases "new_Date D (date a)")
    case None
    then show ?thesis by (simp add: SortCompare_undated)
  next
    case (Some ta)
    then have ta: "new_Date D (date a) = Some t" using assms(2) a by auto
    show ?thesis
    proof (cases "new_Date D (date b)")
      case None
      then show ?thesis by (simp add: SortCompare_undated)
    next
      case (Some tb)
      then have "new_Date D (date b) = Some t" using assms(2) b by auto
      then show ?thesis using ta by (simp add: SortCompare_same)
    qed
  qed
  have g: "array_sort (newest_first D) ps = ps"
    by (rule array_sort_ties) (simp add: tie)
  have "array_sort (by_date D (sortOrder c)) (filter (keep toLowerCase c) ps) =
        filter (keep toLowerCase c) ps"
    by (rule array_sort_ties) (simp add: tie)
  then have r: "filtered toLowerCase D c ps = filter (keep toLowerCase c) ps"
    by (simp add: filtered_def)
  show ?thesis using SortCompare_undated[OF assms(1)] g r by simp
qed

theorem unparseable_date_ties_witness:
  "new_Date sample_Date (date project_undated) = None
   \<and> SortCompare (newest_first sample_Date) project_undated project_B = 0
   \<and> SortCompare (by_date sample_Date (js ''asc'')) project_B project_undated = 0
   \<and> array_sort (newest_first sample_Date) [project_undated, project_B] = [project_undated, project_B]
   \<and> filtered sample_toLowerCase sample_Date \<lparr>searchInput = [], tagFilter = [], sortOrder = js ''asc''\<rparr>
        [project_undated, project_B] = [project_undated, project_B]"
proof -
  have n: "new_Date sample_Date (date project_undated) = None" by (simp add: string_eval page_eval sample_eval)
  have b: "new_Date sample_Date (date project_B) = Some 1685577600000" by (simp add: string_eval page_eval sample_eval)
  have all: "\<forall>r\<in>set [project_undated, project_B].
      new_Date sample_Date (date r) = None \<or> new_Date sample_Date (date r) = Some 1685577600000"
    using n b by simp
  have k: "filter (keep sample_toLowerCase \<lparr>searchInput = [], tagFilter = [], sortOrder = js ''asc''\<rparr>)
      [project_undated, project_B] = [project_undated, project_B]"
    by (simp add: string_eval page_eval sample_eval)
  show ?thesis
    using unparseable_date_ties[OF n all, where q = project_B and v = "js ''asc''"
        and toLowerCase = sample_toLowerCase
        and c = "\<lparr>searchInput = [], tagFilter = [], sortOrder = js ''asc''\<rparr>"] n k
    by simp
qed

text \<open>
  A record with the date \<open>not-a-date\<close> in front of a dated one stays in front: on the page in
  both directions, and in the file written for the account \<open>hubot\<close>.
\<close>

theorem unparseable_not_last_counterexample:
  "new_Date sample_Date (date project_undated) = None
   \<and> filtered sample_toLowerCase sample_Date \<lparr>searchInput = [], tagFilter = [], sortOrder = js ''desc''\<rparr>
        [project_undated, project_B] = [project_undated, project_B]
   \<and> filtered sample_toLowerCase sample_Date \<lparr>searchInput = [], tagFilter = [], sortOrder = js ''asc''\<rparr>
        [project_undated, project_B] = [project_undated, project_B]
   \<and> new_Date sample_Date (date record_undated) = None
   \<and> written (main sample_Date (sample_env (js ''hubot'')) sample_api) =
        Some [record_undated, record_site]
   \<and> last [project_undated, project_B] \<noteq> project_undated
   \<and> last [record_undated, record_site] \<noteq> record_undated"
proof -
  have "new_Date sample_Date (date project_undated) = None" by (simp add: string_eval page_eval sample_eval)
  moreover have "filtered sample_toLowerCase sample_Date \<lparr>searchInput = [], tagFilter = [], sortOrder = js ''desc''\<rparr>
        [project_undated, project_B] = [project_undated, project_B]" by (simp add: string_eval page_eval sample_eval)
  moreover have "filtered sample_toLowerCase sample_Date \<lparr>searchInput = [], tagFilter = [], sortOrder = js ''asc''\<rparr>
        [project_undated, project_B] = [project_undated, project_B]" by (simp add: string_eval page_eval sample_eval)
  moreover have "new_Date sample_Date (date record_undated) = None" by (simp add: string_eval page_eval sample_eval)
  moreover have "written (main sample_Date (sample_env (js ''hubot'')) sample_api) =
        Some [record_undated, record_site]" by code_simp
  moreover have "last [project_undated, project_B] \<noteq> project_undated" by (simp add: string_eval page_eval sample_eval)
  moreover have "last [record_undated, record_site] \<noteq> record_undated" by (simp add: string_eval page_eval sample_eval)
  ultimately show ?thesis by simp
qed

subsection \<open>C8: the date label of a date that does not parse\<close>

text \<open>
  C8 says that the date label of a record whose date is present but does not parse is the
  empty string. \<open>formatDate\<close> returns the empty string for it, but \<open>render\<close> puts the label's
  prefix in front whenever the date is a non-empty string: the label of the record dated
  \<open>not-a-date\<close> is the prefix alone, not the empty string.
\<close>

theorem date_label_not_empty:
  "date project_undated = Some (js ''not-a-date'')
   \<and> parse sample_Date (js ''not-a-date'') = None
   \<and> formatDate sample_Date (js ''not-a-date'') = []
   \<and> update_date (card_of sample_Date project_undated) = updated_prefix
   \<and> update_date (card_of sample_Date project_undated) \<noteq> []"
proof -
  have d: "date project_undated = Some (js ''not-a-date'')" by (simp add: project_undated_def)
  have n: "js ''not-a-date'' \<noteq> []" by (simp add: js_def)
  have p: "parse sample_Date (js ''not-a-date'') = None"
    by (simp add: sample_Date_def sample_parse_def js_def)
  have f: "formatDate sample_Date (js ''not-a-date'') = []" by (simp add: formatDate_def p)
  have u: "update_date (card_of sample_Date project_undated) = updated_prefix"
    using d n p by (rule date_label_unparseable)
  show ?thesis using d p f u by (simp add: updated_prefix_def)
qed

subsection \<open>C9: name, repo and screenshot of a written record\<close>

text \<open>
  C9: every record of the written file has the same \<open>name\<close> and \<open>repo\<close>, the name of one of the
  listed repositories, and the empty string as \<open>screenshot\<close>.
\<close>

theorem name_is_repo:
  assumes "written (main D env api) = Some m" and "p \<in> set m"
  shows "name p = repo p \<and> screenshot p = Some []
       \<and> (\<exists>owner repos. GITHUB_USER env = Some owner \<and> listForUser api owner = Inr repos
            \<and> (\<exists>r\<in>set repos. name p = Some (repo_name r)))"
proof -
  from main_written[OF assms(1)] obtain owner repos where
    o: "GITHUB_USER env = Some owner" and l: "listForUser api owner = Inr repos"
    and m: "m = manifest D api owner repos" by blast
  from assms(2) obtain r where r: "r \<in> set repos" and p: "p \<in> set (emitted api owner r)"
    by (auto simp: m manifest_def set_array_sort projects_collect)
  from p have "name p = Some (repo_name r) \<and> repo p = Some (repo_name r) \<and> screenshot p = Some []"
    by (auto simp: emitted_def process_repo_def split: if_splits sum.splits)
  then show ?thesis using o l r by auto
qed

theorem name_is_repo_witness:
  "name record_blog = repo record_blog \<and> screenshot record_blog = Some []
   \<and> name record_blog = Some (repo_name repo_blog)"
proof -
  have p: "record_blog \<in> set [record_blog, record_site]" by simp
  have "name record_blog = Some (repo_name repo_blog)"
    by (simp add: record_blog_def repo_blog_def)
  then show ?thesis
    using name_is_repo[OF octocat_written p] by simp
qed

subsection \<open>C10: the search text is trimmed\<close>

text \<open>
  C10: a search text of blank code units only gives the records, and the cards, of the empty
  search text; blank code units in front of and behind a search text change neither.
\<close>

theorem search_text_trimmed:
  assumes "\<forall>u\<in>set w1. isWhiteSpace u" and "\<forall>u\<in>set w2. isWhiteSpace u"
  shows "filtered toLowerCase D (c\<lparr>searchInput := w1\<rparr>) ps =
         filtered toLowerCase D (c\<lparr>searchInput := []\<rparr>) ps
       \<and> render toLowerCase D (c\<lparr>searchInput := w1\<rparr>) ps =
         render toLowerCase D (c\<lparr>searchInput := []\<rparr>) ps
       \<and> filtered toLowerCase D (c\<lparr>searchInput := w1 @ q @ w2\<rparr>) ps =
         filtered toLowerCase D (c\<lparr>searchInput := q\<rparr>) ps
       \<and> render toLowerCase D (c\<lparr>searchInput := w1 @ q @ w2\<rparr>) ps =
         render toLowerCase D (c\<lparr>searchInput := q\<rparr>) ps"
proof -
  have "trim [] = []" by (simp add: trim_def)
  then have a: "trim w1 = trim []" using trim_blank[OF assms(1)] by simp
  have b: "trim (w1 @ q @ w2) = trim q" using assms by (rule trim_pad)
  show ?thesis
    using render_trim_cong[OF a, of toLowerCase D c ps]
      render_trim_cong[OF b, of toLowerCase D c ps] by simp
qed

theorem search_text_trimmed_witness:
  "filtered sample_toLowerCase sample_Date \<lparr>searchInput = [0x20, 0x9], tagFilter = [], sortOrder = js ''desc''\<rparr>
       [project_A, project_B] =
   filtered sample_toLowerCase sample_Date \<lparr>searchInput = [], tagFilter = [], sortOrder = js ''desc''\<rparr>
       [project_A, project_B]
   \<and> filtered sample_toLowerCase sample_Date \<lparr>searchInput = [0x20, 0x9] @ js ''a'' @ [0x3000], tagFilter = [],
         sortOrder = js ''desc''\<rparr> [project_A, project_B] =
     filtered sample_toLowerCase sample_Date \<lparr>searchInput = js ''a'', tagFilter = [], sortOrder = js ''desc''\<rparr>
       [project_A, project_B]
   \<and> filtered sample_toLowerCase sample_Date \<lparr>searchInput = js ''a'', tagFilter = [], sortOrder = js ''desc''\<rparr>
       [project_A, project_B] = [project_A]"
proof -
  have w1: "\<forall>u\<in>set [0x20, 0x9]. isWhiteSpace u" by (simp add: isWhiteSpace_def)
  have w2: "\<forall>u\<in>set [0x3000]. isWhiteSpace u" by (simp add: isWhiteSpace_def)
  have r: "filtered sample_toLowerCase sample_Date \<lparr>searchInput = js ''a'', tagFilter = [], sortOrder = js ''desc''\<rparr>
       [project_A, project_B] = [project_A]"
    by (simp add: string_eval page_eval sample_eval)
  show ?thesis
    using search_text_trimmed[OF w1 w2, where toLowerCase = sample_toLowerCase
        and D = sample_Date and ps = "[project_A, project_B]" and q = "js ''a''"
        and c = "\<lparr>searchInput = [], tagFilter = [], sortOrder = js ''desc''\<rparr>"] r
    by simp
qed

end
